theory Spec2Isabelle
  imports Complex_Main
begin

section \<open>Data model\<close>

text \<open>
  The events of the augmented-diff feed, as \<^verbatim>\<open>index.js\<close> reads them. An event is an
  object whose \<^verbatim>\<open>type\<close> is either \<^verbatim>\<open>"Marker"\<close> (with \<^verbatim>\<open>properties.status\<close> and
  \<^verbatim>\<open>properties.sequenceNumber\<close>) or a GeoJSON FeatureCollection whose \<^verbatim>\<open>id\<close> is the
  operation (\<^verbatim>\<open>"create"\<close>, \<^verbatim>\<open>"modify"\<close>, \<^verbatim>\<open>"delete"\<close>) and whose \<^verbatim>\<open>features\<close> are
  tagged \<^verbatim>\<open>"old"\<close> and \<^verbatim>\<open>"new"\<close>.

  The sequence number of a marker is an integer, an \<^typ>\<open>int\<close>, and \<^verbatim>\<open>Number(n)\<close> of it
  is the number itself; the arithmetic that the program does on numbers is modelled
  further down, with its rounding. The value \<^verbatim>\<open>null\<close> of the batcher's \<^verbatim>\<open>sequence\<close>
  variable is \<^term>\<open>None\<close>.
\<close>

record feature =
  feature_id :: string
  visible :: "bool option"
  payload :: string

record marker_properties =
  status :: string
  sequenceNumber :: int

datatype event =
    Marker marker_properties
  | FeatureCollection string "feature list"

text \<open>
  What the program raises or hands to a callback: a \<^verbatim>\<open>TypeError\<close> or a \<^verbatim>\<open>RangeError\<close>
  of the runtime, the \<^verbatim>\<open>Error\<close> for a target URI whose protocol is neither \<^verbatim>\<open>file:\<close>
  nor \<^verbatim>\<open>s3:\<close>, a failed read or write of the sink, a document that \<^verbatim>\<open>YAML.parse\<close>
  rejects, and an error of the feed.
\<close>

datatype error =
    TypeError string
  | RangeError string
  | UnsupportedProtocol string
  | IOError string
  | YAMLError string
  | FeedError string

text \<open>
  What a highland \<^verbatim>\<open>consume\<close> handler is called with: an error, a value, or the end
  of the stream (\<^verbatim>\<open>_.nil\<close>).
\<close>

datatype 'a hl = Err error | Val 'a | Nil

type_synonym batch = "int option \<times> event list"

section \<open>Batching by sequence\<close>

text \<open>
  \<^verbatim>\<open>index.js\<close>, lines 200 to 240. The closure variables \<^verbatim>\<open>batched\<close> and \<^verbatim>\<open>sequence\<close>
  are the first two arguments; the result is the list of what the handler pushes,
  in order. After \<^verbatim>\<open>_.nil\<close> the handler does not call \<^verbatim>\<open>next\<close>, so nothing that
  follows it is read. A list with no \<^term>\<open>Nil\<close> is a feed that has not ended (yet).
\<close>

fun consume :: "event list \<Rightarrow> int option \<Rightarrow> event hl list \<Rightarrow> batch hl list" where
  "consume batched sequence [] = []"
| "consume batched sequence (Err err # s) = Err err # consume batched sequence s"
| "consume batched sequence (Nil # s) =
     (if length batched > 0 then [Val (sequence, batched)] else []) @ [Nil]"
| "consume batched sequence (Val (Marker properties) # s) =
     (let sequence' = (if status properties = ''start''
                       then Some (sequenceNumber properties) else sequence)
      in if status properties = ''end''
         then (if length batched > 0 then [Val (sequence', batched)] else [])
                @ consume [] sequence' s
         else consume batched sequence' s)"
| "consume batched sequence (Val (FeatureCollection op fs) # s) =
     consume (batched @ [FeatureCollection op fs]) sequence s"

definition batch_by_sequence :: "event hl list \<Rightarrow> batch hl list" where
  "batch_by_sequence s = consume [] None s"

subsection \<open>Observations of a feed\<close>

text \<open>
  What can be read off a stretch of the feed without running the batcher: which tokens
  are \<^verbatim>\<open>end\<close> markers, the feature changes in it, the numbers of its \<^verbatim>\<open>start\<close>
  markers in order (so the last of them, if any), and the feature changes that follow
  its last \<^verbatim>\<open>end\<close> marker.
\<close>

fun is_end :: "event hl \<Rightarrow> bool" where
  "is_end (Val (Marker properties)) = (status properties = ''end'')"
| "is_end _ = False"

fun changes :: "event hl list \<Rightarrow> event list" where
  "changes [] = []"
| "changes (Val (FeatureCollection op fs) # s) = FeatureCollection op fs # changes s"
| "changes (_ # s) = changes s"

fun start_numbers :: "event hl list \<Rightarrow> int list" where
  "start_numbers [] = []"
| "start_numbers (t # s) =
     (case t of
        Val (Marker properties) \<Rightarrow>
          (if status properties = ''start''
           then sequenceNumber properties # start_numbers s else start_numbers s)
      | _ \<Rightarrow> start_numbers s)"

definition last_start :: "event hl list \<Rightarrow> int option" where
  "last_start s = (if start_numbers s = [] then None else Some (last (start_numbers s)))"

definition since_last_end :: "event hl list \<Rightarrow> event list" where
  "since_last_end s = changes (rev (takeWhile (\<lambda>t. \<not> is_end t) (rev s)))"

text \<open>
  A complete pair: a \<^verbatim>\<open>start\<close> marker numbered \<open>n\<close>, feature changes (each given by its
  operation and its features), and an \<^verbatim>\<open>end\<close> marker numbered \<open>m\<close>.
\<close>

definition change :: "string \<times> feature list \<Rightarrow> event" where
  "change c = FeatureCollection (fst c) (snd c)"

definition start_marker :: "int \<Rightarrow> event" where
  "start_marker n = Marker \<lparr>status = ''start'', sequenceNumber = n\<rparr>"

definition end_marker :: "int \<Rightarrow> event" where
  "end_marker n = Marker \<lparr>status = ''end'', sequenceNumber = n\<rparr>"

definition pair_events :: "int \<times> (string \<times> feature list) list \<times> int \<Rightarrow> event hl list" where
  "pair_events p =
     (case p of (n, items, m) \<Rightarrow>
        Val (start_marker n) # map (\<lambda>c. Val (change c)) items @ [Val (end_marker m)])"

definition pair_batches ::
  "(int \<times> (string \<times> feature list) list \<times> int) list \<Rightarrow> batch hl list" where
  "pair_batches ps =
     map (\<lambda>p. case p of (n, items, m) \<Rightarrow> Val (Some n, map change items))
       (filter (\<lambda>p. case p of (n, items, m) \<Rightarrow> items \<noteq> []) ps)"

text \<open>The emitted batches among the pushed tokens.\<close>

fun batches_of :: "batch hl list \<Rightarrow> batch list" where
  "batches_of [] = []"
| "batches_of (Val b # s) = b # batches_of s"
| "batches_of (_ # s) = batches_of s"

subsection \<open>The other revision\<close>

text \<open>
  The second source file of the repository (the revision that writes the flat key
  \<^verbatim>\<open>{sequence}.json\<close>), lines 187 to 227: its batching stage.
\<close>

fun consume_legacy :: "event list \<Rightarrow> int option \<Rightarrow> event hl list \<Rightarrow> batch hl list" where
  "consume_legacy batched sequence [] = []"
| "consume_legacy batched sequence (Err err # s) = Err err # consume_legacy batched sequence s"
| "consume_legacy batched sequence (Nil # s) =
     (if length batched > 0 then [Val (sequence, batched)] else []) @ [Nil]"
| "consume_legacy batched sequence (Val (Marker properties) # s) =
     (let sequence' = (if status properties = ''start''
                       then Some (sequenceNumber properties) else sequence)
      in if status properties = ''end''
         then (if length batched > 0 then [Val (sequence', batched)] else [])
                @ consume_legacy [] sequence' s
         else consume_legacy batched sequence' s)"
| "consume_legacy batched sequence (Val (FeatureCollection op fs) # s) =
     consume_legacy (batched @ [FeatureCollection op fs]) sequence s"

definition batch_by_sequence_legacy :: "event hl list \<Rightarrow> batch hl list" where
  "batch_by_sequence_legacy s = consume_legacy [] None s"

section \<open>The extraction stream\<close>

text \<open>
  \<^verbatim>\<open>ExtractionStream._transform\<close>, lines 96 to 110. \<^verbatim>\<open>features.find\<close> returns the first
  feature whose id is \<^verbatim>\<open>"new"\<close>, or \<^verbatim>\<open>undefined\<close>; the assignment to
  \<^verbatim>\<open>feature.properties.visible\<close> changes that feature inside \<^verbatim>\<open>obj\<close>, and raises a
  \<^verbatim>\<open>TypeError\<close> when there is none. The result is the object pushed.
\<close>

fun update_first :: "('a \<Rightarrow> bool) \<Rightarrow> ('a \<Rightarrow> 'a) \<Rightarrow> 'a list \<Rightarrow> 'a list" where
  "update_first P f [] = []"
| "update_first P f (x # xs) = (if P x then f x # xs else x # update_first P f xs)"

definition transform :: "event \<Rightarrow> error + event" where
  "transform obj =
     (case obj of
        Marker properties \<Rightarrow> Inr obj
      | FeatureCollection op fs \<Rightarrow>
          (case find (\<lambda>f. feature_id f = ''new'') fs of
             None \<Rightarrow> Inl (TypeError ''Cannot read property properties of undefined'')
           | Some feature \<Rightarrow>
               Inr (FeatureCollection op
                     (update_first (\<lambda>f. feature_id f = ''new'')
                        (\<lambda>f. f\<lparr>visible := Some (op \<noteq> ''delete'')\<rparr>) fs))))"

text \<open>
  The stream applies \<^verbatim>\<open>_transform\<close> to one event after the other, one event in and one
  out; an exception ends the process.
\<close>

fun ExtractionStream :: "event list \<Rightarrow> error + event list" where
  "ExtractionStream [] = Inr []"
| "ExtractionStream (obj # objs) =
     (case transform obj of
        Inl err \<Rightarrow> Inl err
      | Inr obj' \<Rightarrow>
          (case ExtractionStream objs of Inl err \<Rightarrow> Inl err | Inr objs' \<Rightarrow> Inr (obj' # objs')))"

text \<open>Extraction piped into the batching stage, as \<^verbatim>\<open>main\<close> composes them.\<close>

definition extract_and_batch :: "event list \<Rightarrow> error + batch hl list" where
  "extract_and_batch feed =
     (case ExtractionStream feed of
        Inl err \<Rightarrow> Inl err
      | Inr objs \<Rightarrow> Inr (batch_by_sequence (map Val objs)))"

section \<open>Numbers\<close>

text \<open>
  The numbers of the program are double-precision floats. The ones that occur in
  the arithmetic on sequence numbers and time values are integers, \<^verbatim>\<open>NaN\<close> and the two
  infinities. \<^term>\<open>Num x\<close> is the double whose value is the integer \<open>x\<close>.

  The result of an addition or a multiplication is the exact result rounded to the
  nearest double, to the even one of the two when it lies halfway. An integer below
  \<open>2 ^ 53\<close> in magnitude is a double. A larger one lies between two doubles that are
  \<open>spacing\<close> apart, a power of two; a result of magnitude \<open>2 ^ 1024\<close> or more after
  rounding is infinite.
\<close>

datatype number = Num int | NaN | Infinity | NegInfinity

function spacing :: "nat \<Rightarrow> nat \<Rightarrow> nat" where
  "spacing a q = (if q = 0 \<or> a < 2 ^ 53 * q then q else spacing a (2 * q))"
  by pat_completeness auto
termination
  by (relation "measure (\<lambda>(a, q). a - q)") auto

declare spacing.simps [simp del]

definition to_double :: "int \<Rightarrow> number" where
  "to_double x =
     (let a = nat \<bar>x\<bar>
      in if a < 2 ^ 53 then Num x
         else (let q = spacing a 1;
                   lo = a div q;
                   r = a mod q;
                   m = (if q < 2 * r \<or> (2 * r = q \<and> odd lo) then lo + 1 else lo)
               in if 2 ^ 1024 \<le> m * q then (if x < 0 then NegInfinity else Infinity)
                  else Num (sgn x * int (m * q))))"

definition js_add :: "number \<Rightarrow> number \<Rightarrow> number" where
  "js_add x y =
     (case (x, y) of
        (Num a, Num b) \<Rightarrow> to_double (a + b)
      | _ \<Rightarrow>
          if x = NaN \<or> y = NaN then NaN
          else if (x = Infinity \<and> y = NegInfinity) \<or> (x = NegInfinity \<and> y = Infinity)
          then NaN
          else if x = Infinity \<or> y = Infinity then Infinity
          else NegInfinity)"

fun sign_of :: "number \<Rightarrow> int" where
  "sign_of (Num a) = sgn a"
| "sign_of Infinity = 1"
| "sign_of NegInfinity = - 1"
| "sign_of NaN = 0"

definition js_mul :: "number \<Rightarrow> number \<Rightarrow> number" where
  "js_mul x y =
     (case (x, y) of
        (Num a, Num b) \<Rightarrow> to_double (a * b)
      | _ \<Rightarrow>
          if sign_of x * sign_of y = 0 then NaN
          else if 0 < sign_of x * sign_of y then Infinity
          else NegInfinity)"

section \<open>Sequence numbers and timestamps\<close>

text \<open>
  A \<^verbatim>\<open>Date\<close> object holds a time value, an integer number of milliseconds since the
  epoch of magnitude at most 8640000000000000, or is an invalid date, which
  \<^verbatim>\<open>new Date(v)\<close> returns for any other \<open>v\<close>.
\<close>

datatype date = Date "int option"

definition new_Date :: "number \<Rightarrow> date" where
  "new_Date v =
     (case v of
        Num x \<Rightarrow> if \<bar>x\<bar> \<le> 8640000000000000 then Date (Some x) else Date None
      | _ \<Rightarrow> Date None)"

text \<open>
  What \<^verbatim>\<open>timestampToSequence\<close> is given: a \<^verbatim>\<open>Date\<close> object, or a string, which is
  modelled by the time value that \<^verbatim>\<open>Date.parse\<close> reads from it (\<^term>\<open>None\<close> when it
  reads none). \<^verbatim>\<open>Date.parse\<close> of a \<^verbatim>\<open>Date\<close> object reads the object's string form, which
  has the seconds and not the milliseconds, and is \<^verbatim>\<open>NaN\<close> for an invalid date.
\<close>

datatype timestamp = DateObject date | DateString "int option"

fun Date_parse :: "timestamp \<Rightarrow> number" where
  "Date_parse (DateObject (Date None)) = NaN"
| "Date_parse (DateObject (Date (Some ms))) = Num (ms div 1000 * 1000)"
| "Date_parse (DateString None) = NaN"
| "Date_parse (DateString (Some ms)) = Num ms"

text \<open>
  Lines 52 to 56. In \<^verbatim>\<open>timestampToSequence\<close> the two quotients are taken exactly;
  \<^verbatim>\<open>Math.ceil\<close> of \<^verbatim>\<open>NaN\<close> is \<^verbatim>\<open>NaN\<close>.
\<close>

definition sequenceToTimestamp :: "int \<Rightarrow> date" where
  "sequenceToTimestamp sequence =
     new_Date (js_mul (js_add (js_mul (Num sequence) (Num 60)) (Num 1347432900)) (Num 1000))"

definition timestampToSequence :: "timestamp \<Rightarrow> number" where
  "timestampToSequence timestamp =
     (case Date_parse timestamp of
        Num ms \<Rightarrow> Num \<lceil>(real_of_int ms / 1000 - 1347432900) / 60\<rceil>
      | _ \<Rightarrow> NaN)"

section \<open>The sink\<close>

text \<open>
  A target URI as \<^verbatim>\<open>url.parse\<close> returns it: for \<^verbatim>\<open>s3://bucket/augdiffs/\<close> the protocol
  is \<^verbatim>\<open>s3:\<close>, the host \<^verbatim>\<open>bucket\<close> and the path \<^verbatim>\<open>/augdiffs/\<close>.
\<close>

record uri =
  protocol :: string
  host :: string
  path :: string

text \<open>
  The object that \<^verbatim>\<open>writer\<close> hands to \<^verbatim>\<open>YAML.stringify\<close> for \<^verbatim>\<open>state.yaml\<close>:
  \<^verbatim>\<open>{last_run, sequence}\<close>.
\<close>

record publish_state =
  state_last_run :: string
  state_sequence :: int

text \<open>
  What \<^verbatim>\<open>YAML.parse\<close> returns for the text of \<^verbatim>\<open>state.yaml\<close>, as far as
  \<^verbatim>\<open>getCurrentSequence\<close> reads it: \<^verbatim>\<open>null\<close> for an empty document, or else a value whose
  \<^verbatim>\<open>sequence\<close> is a number or is not there (\<^verbatim>\<open>undefined\<close>).
\<close>

datatype document = Null_document | Entries "number option"

text \<open>
  The library functions the program calls and the clock, taken as parameters:
  \<^verbatim>\<open>JSON.stringify\<close>, \<^verbatim>\<open>YAML.stringify\<close>, \<^verbatim>\<open>YAML.parse\<close> (which may raise), \<^verbatim>\<open>gzip\<close>,
  \<^verbatim>\<open>path.resolve\<close>, \<^verbatim>\<open>path.dirname\<close> and \<^verbatim>\<open>new Date().toISOString()\<close>.
\<close>

record env =
  JSON_stringify :: "event \<Rightarrow> string"
  YAML_stringify :: "publish_state \<Rightarrow> string"
  YAML_parse :: "string \<Rightarrow> error + document"
  gzip :: "string \<Rightarrow> string"
  path_resolve :: "string \<Rightarrow> string \<Rightarrow> string"
  path_dirname :: "string \<Rightarrow> string"
  now :: string

text \<open>
  The calls that change the sink: \<^verbatim>\<open>fs.mkdirs(path)\<close>, \<^verbatim>\<open>fs.writeFile(path, data)\<close> and
  \<^verbatim>\<open>S3.putObject\<close> with its \<^verbatim>\<open>Bucket\<close>, \<^verbatim>\<open>Key\<close>, \<^verbatim>\<open>Body\<close> and \<^verbatim>\<open>ContentType\<close>.
\<close>

datatype call =
    Mkdirs string
  | WriteFile string string
  | PutObject string string string string

text \<open>
  The world outside the program: the files by path, the objects by bucket and key,
  the calls that have completed so far with whether each succeeded, the outcomes that
  the environment has decided for the calls to come (\<^term>\<open>Some msg\<close>: the call fails
  with \<open>msg\<close>; \<^term>\<open>None\<close>, or nothing left: it succeeds), and the calls that were
  started and whose completion the process did not live to see.
\<close>

record world =
  files :: "string \<rightharpoonup> string"
  objects :: "string \<times> string \<rightharpoonup> string"
  calls :: "(call \<times> bool) list"
  faults :: "string option list"
  started :: "call list"

fun effect :: "call \<Rightarrow> world \<Rightarrow> world" where
  "effect (Mkdirs p) w = w"
| "effect (WriteFile p content) w = w\<lparr>files := (files w)(p \<mapsto> content)\<rparr>"
| "effect (PutObject bucket key body contentType) w =
     w\<lparr>objects := (objects w)((bucket, key) \<mapsto> body)\<rparr>"

definition perform :: "call \<Rightarrow> world \<Rightarrow> (error + unit) \<times> world" where
  "perform c w =
     (case faults w of
        Some msg # rest \<Rightarrow>
          (Inl (IOError msg), w\<lparr>calls := calls w @ [(c, False)], faults := rest\<rparr>)
      | None # rest \<Rightarrow>
          (Inr (), (effect c w)\<lparr>calls := calls w @ [(c, True)], faults := rest\<rparr>)
      | [] \<Rightarrow>
          (Inr (), (effect c w)\<lparr>calls := calls w @ [(c, True)]\<rparr>))"

subsection \<open>The key of a sequence\<close>

text \<open>
  \<^verbatim>\<open>sequence.toString()\<close> of an integer is its decimal numeral, with a minus sign when
  negative; \<^verbatim>\<open>padStart(9, 0)\<close> pads with the character \<^verbatim>\<open>0\<close> on the left up to length 9
  and leaves a longer string as it is; \<^verbatim>\<open>slice(a, b)\<close> with \<open>0 \<le> a \<le> b\<close> is the
  characters from index \<open>a\<close> up to but not including \<open>b\<close>. Lines 139 and 140.
\<close>

definition digit_char :: "nat \<Rightarrow> char" where
  "digit_char d = ''0123456789'' ! d"

fun digits :: "nat \<Rightarrow> string" where
  "digits n = (if n < 10 then [digit_char n] else digits (n div 10) @ [digit_char (n mod 10)])"

declare digits.simps [simp del]

definition toString :: "int \<Rightarrow> string" where
  "toString n = (if n < 0 then CHR ''-'' # digits (nat (- n)) else digits (nat n))"

definition padStart :: "nat \<Rightarrow> char \<Rightarrow> string \<Rightarrow> string" where
  "padStart targetLength padChar s = replicate (targetLength - length s) padChar @ s"

definition slice :: "nat \<Rightarrow> nat \<Rightarrow> string \<Rightarrow> string" where
  "slice a b s = take (b - a) (drop a s)"

definition sequencePath :: "int \<Rightarrow> string" where
  "sequencePath sequence =
     (let s = padStart 9 CHR ''0'' (toString sequence)
      in slice 0 3 s @ ''/'' @ slice 3 6 s @ ''/'' @ slice 6 9 s)"

text \<open>The decimal digits of \<open>n\<close> in exactly \<open>k\<close> places, most significant first.\<close>

fun zero_padded :: "nat \<Rightarrow> nat \<Rightarrow> string" where
  "zero_padded 0 n = []"
| "zero_padded (Suc k) n = zero_padded k (n div 10) @ [digit_char (n mod 10)]"

subsection \<open>Writing a batch\<close>

text \<open>
  \<^verbatim>\<open>writer\<close>, lines 125 to 184. It is an \<^verbatim>\<open>async\<close> function: it either calls its
  callback, with an error or without one, or raises, which rejects the promise it
  returns; nothing handles that promise, so the \<^verbatim>\<open>unhandledRejection\<close> handler of
  line 25 ends the process.

  The line printed first calls \<^verbatim>\<open>sequenceToTimestamp(sequence).toISOString()\<close>, which
  raises a \<^verbatim>\<open>RangeError\<close> for an invalid date (in the arithmetic \<^verbatim>\<open>null\<close> counts as 0);
  \<^verbatim>\<open>sequence.toString()\<close> on \<^verbatim>\<open>null\<close> raises a \<^verbatim>\<open>TypeError\<close>. Both are outside the
  \<^verbatim>\<open>try\<close> blocks and come before any call to the sink. Inside each \<^verbatim>\<open>try\<close> the calls are
  awaited one after the other, and the first that fails goes to \<^verbatim>\<open>catch\<close>, which hands
  the error to the callback.
\<close>

datatype outcome = Callback "error option" | Unhandled error

definition writer :: "env \<Rightarrow> uri \<Rightarrow> batch \<Rightarrow> world \<Rightarrow> outcome \<times> world" where
  "writer e targetURI sb w =
     (case sb of (sequence, batch) \<Rightarrow>
        (case sequenceToTimestamp (case sequence of None \<Rightarrow> 0 | Some n \<Rightarrow> n) of
           Date None \<Rightarrow> (Unhandled (RangeError ''Invalid time value''), w)
         | Date (Some ms) \<Rightarrow>
        (case sequence of
           None \<Rightarrow> (Unhandled (TypeError ''Cannot read property toString of null''), w)
         | Some n \<Rightarrow>
             (let body = concat (map (\<lambda>x. JSON_stringify e x @ [CHR 0x0A]) batch);
                  state = YAML_stringify e \<lparr>state_last_run = now e, state_sequence = n\<rparr>;
                  sequencePath = sequencePath n
              in if protocol targetURI = ''s3:'' then
                   (case perform (PutObject (host targetURI)
                                   (drop 1 (path targetURI) @ sequencePath @ ''.json.gz'')
                                   (gzip e body) ''application/json'') w of
                      (Inl err, w1) \<Rightarrow> (Callback (Some err), w1)
                    | (Inr u, w1) \<Rightarrow>
                        (case perform (PutObject (host targetURI)
                                        (drop 1 (path targetURI) @ ''state.yaml'')
                                        state ''application/vnd.yaml'') w1 of
                           (Inl err, w2) \<Rightarrow> (Callback (Some err), w2)
                         | (Inr u, w2) \<Rightarrow> (Callback None, w2)))
                 else if protocol targetURI = ''file:'' then
                   (let prefix = host targetURI @ path targetURI
                    in case perform (Mkdirs (path_resolve e prefix
                                              (path_dirname e sequencePath))) w of
                         (Inl err, w1) \<Rightarrow> (Callback (Some err), w1)
                       | (Inr u, w1) \<Rightarrow>
                           (case perform (WriteFile
                                           (path_resolve e prefix (sequencePath @ ''.json.gz''))
                                           (gzip e body)) w1 of
                              (Inl err, w2) \<Rightarrow> (Callback (Some err), w2)
                            | (Inr u, w2) \<Rightarrow>
                                (case perform (WriteFile
                                                (path_resolve e prefix ''state.yaml'')
                                                state) w2 of
                                   (Inl err, w3) \<Rightarrow> (Callback (Some err), w3)
                                 | (Inr u, w3) \<Rightarrow> (Callback None, w3))))
                 else (Callback (Some (UnsupportedProtocol (protocol targetURI))), w)))))"

text \<open>
  What \<^verbatim>\<open>writer\<close> does from the moment it is entered until it first waits, which is
  all it does when the process ends before what it waits for completes. It has
  finished by then if it raised or if the protocol is not supported; for an \<^verbatim>\<open>s3:\<close>
  target it waits for \<^verbatim>\<open>gzip\<close>, before \<^verbatim>\<open>putObject\<close> is called; for a \<^verbatim>\<open>file:\<close> target it
  has called \<^verbatim>\<open>fs.mkdirs\<close> and waits for it.
\<close>

definition writer_enter :: "env \<Rightarrow> uri \<Rightarrow> batch \<Rightarrow> world \<Rightarrow> outcome option \<times> world" where
  "writer_enter e targetURI sb w =
     (case sb of (sequence, batch) \<Rightarrow>
        (case sequenceToTimestamp (case sequence of None \<Rightarrow> 0 | Some n \<Rightarrow> n) of
           Date None \<Rightarrow> (Some (Unhandled (RangeError ''Invalid time value'')), w)
         | Date (Some ms) \<Rightarrow>
        (case sequence of
           None \<Rightarrow>
             (Some (Unhandled (TypeError ''Cannot read property toString of null'')), w)
         | Some n \<Rightarrow>
             if protocol targetURI = ''s3:'' then (None, w)
             else if protocol targetURI = ''file:'' then
               (None,
                w\<lparr>started := started w @
                     [Mkdirs (path_resolve e (host targetURI @ path targetURI)
                               (path_dirname e (sequencePath n)))]\<rparr>)
             else (Some (Callback (Some (UnsupportedProtocol (protocol targetURI)))), w))))"

text \<open>
  \<^verbatim>\<open>.flatMap(_.wrapCallback(writer(targetURI))).errors(reject).done(resolve)\<close>, lines
  241 to 243, and the end of \<^verbatim>\<open>main\<close>, lines 247 to 252. The batches are written one at
  a time, in order, and the end of the stream resolves the promise of \<^verbatim>\<open>main\<close>. An
  error, of the feed or handed over by \<^verbatim>\<open>writer\<close>, goes to \<^verbatim>\<open>reject\<close>, and the stream
  goes on: \<^verbatim>\<open>errors\<close> does not end it. What ends the run is \<^verbatim>\<open>process.exit(1)\<close> in the
  \<^verbatim>\<open>catch\<close> of \<^verbatim>\<open>main\<close>, which runs once the promise is rejected and the running code
  has come to wait. So after a rejection the stream still passes on what is there
  without waiting, a later \<^verbatim>\<open>writer\<close> is entered and runs until it first waits, and
  then the process ends, reporting the error of the first rejection. A \<^verbatim>\<open>writer\<close> that
  raises ends the process through the \<^verbatim>\<open>unhandledRejection\<close> handler.

  The fourth argument is the error the promise was rejected with, if it was; the
  result is the error the process ends with, if any, and the world it leaves.
\<close>

fun run :: "env \<Rightarrow> uri \<Rightarrow> batch hl list \<Rightarrow> error option \<Rightarrow> world \<Rightarrow> error option \<times> world" where
  "run e targetURI [] rejected w = (rejected, w)"
| "run e targetURI (Nil # s) rejected w = (rejected, w)"
| "run e targetURI (Err err # s) rejected w =
     run e targetURI s (if rejected = None then Some err else rejected) w"
| "run e targetURI (Val sb # s) rejected w =
     (case rejected of
        None \<Rightarrow>
          (case writer e targetURI sb w of
             (Callback None, w') \<Rightarrow> run e targetURI s None w'
           | (Callback (Some err), w') \<Rightarrow> run e targetURI s (Some err) w'
           | (Unhandled err, w') \<Rightarrow> (Some err, w'))
      | Some err0 \<Rightarrow>
          (case writer_enter e targetURI sb w of
             (None, w') \<Rightarrow> (Some err0, w')
           | (Some (Callback r), w') \<Rightarrow> run e targetURI s (Some err0) w'
           | (Some (Unhandled err), w') \<Rightarrow> (Some err0, w')))"

definition publish :: "env \<Rightarrow> uri \<Rightarrow> batch hl list \<Rightarrow> world \<Rightarrow> error option \<times> world" where
  "publish e targetURI s w = run e targetURI s None w"

subsection \<open>The calls of one publish\<close>

text \<open>
  Names for what \<^verbatim>\<open>writer\<close> computes and passes to the sink for sequence \<open>n\<close>: the body
  of the data object, the state document, and the calls that create the directory and
  write the data object and the state object, for an \<^verbatim>\<open>s3:\<close> and for a \<^verbatim>\<open>file:\<close> target.
\<close>

definition body_of :: "env \<Rightarrow> event list \<Rightarrow> string" where
  "body_of e batch = concat (map (\<lambda>x. JSON_stringify e x @ [CHR 0x0A]) batch)"

definition state_of :: "env \<Rightarrow> int \<Rightarrow> string" where
  "state_of e n = YAML_stringify e \<lparr>state_last_run = now e, state_sequence = n\<rparr>"

definition put_data :: "env \<Rightarrow> uri \<Rightarrow> int \<Rightarrow> event list \<Rightarrow> call" where
  "put_data e u n batch =
     PutObject (host u) (drop 1 (path u) @ sequencePath n @ ''.json.gz'')
       (gzip e (body_of e batch)) ''application/json''"

definition put_state :: "env \<Rightarrow> uri \<Rightarrow> int \<Rightarrow> call" where
  "put_state e u n =
     PutObject (host u) (drop 1 (path u) @ ''state.yaml'') (state_of e n)
       ''application/vnd.yaml''"

definition make_dirs :: "env \<Rightarrow> uri \<Rightarrow> int \<Rightarrow> call" where
  "make_dirs e u n =
     Mkdirs (path_resolve e (host u @ path u) (path_dirname e (sequencePath n)))"

definition write_data :: "env \<Rightarrow> uri \<Rightarrow> int \<Rightarrow> event list \<Rightarrow> call" where
  "write_data e u n batch =
     WriteFile (path_resolve e (host u @ path u) (sequencePath n @ ''.json.gz''))
       (gzip e (body_of e batch))"

definition write_state :: "env \<Rightarrow> uri \<Rightarrow> int \<Rightarrow> call" where
  "write_state e u n =
     WriteFile (path_resolve e (host u @ path u) ''state.yaml'') (state_of e n)"

section \<open>Where to start\<close>

text \<open>
  \<^verbatim>\<open>getCurrentSequence\<close>, lines 58 to 82. A file or object that is not there fails the
  read; reading \<^verbatim>\<open>sequence\<close> of \<^verbatim>\<open>null\<close> raises; \<^verbatim>\<open>state.sequence + 1\<close> is an addition
  of numbers, and \<^verbatim>\<open>undefined + 1\<close> is \<^verbatim>\<open>NaN\<close>.
\<close>

definition plus_one :: "document \<Rightarrow> error + number" where
  "plus_one state =
     (case state of
        Null_document \<Rightarrow> Inl (TypeError ''Cannot read property sequence of null'')
      | Entries None \<Rightarrow> Inr NaN
      | Entries (Some v) \<Rightarrow> Inr (js_add v (Num 1)))"

definition getCurrentSequence :: "env \<Rightarrow> uri \<Rightarrow> world \<Rightarrow> error + number" where
  "getCurrentSequence e uri w =
     (if protocol uri = ''file:'' then
        (let prefix = host uri @ path uri
         in case files w (path_resolve e prefix ''state.yaml'') of
              None \<Rightarrow> Inl (IOError ''ENOENT'')
            | Some content \<Rightarrow>
                (case YAML_parse e content of
                   Inl err \<Rightarrow> Inl err
                 | Inr state \<Rightarrow> plus_one state))
      else if protocol uri = ''s3:'' then
        (case objects w (host uri, drop 1 (path uri) @ ''state.yaml'') of
           None \<Rightarrow> Inl (IOError ''NoSuchKey'')
         | Some body \<Rightarrow>
             (case YAML_parse e body of
                Inl err \<Rightarrow> Inl err
              | Inr state \<Rightarrow> plus_one state))
      else Inl (UnsupportedProtocol (protocol uri)))"

text \<open>
  The options of the command line: \<^verbatim>\<open>undefined\<close> is \<^term>\<open>None\<close>; the timestamp option
  is a string. The selection of \<^verbatim>\<open>initialSequence\<close> in \<^verbatim>\<open>main\<close>, lines 114 to 123:
  \<^verbatim>\<open>if (options.initialSequence)\<close> tests the number for truth, and the number 0 is not
  true.
\<close>

record options =
  initialSequence :: "int option"
  timestamp :: "timestamp option"
  target :: "uri option"

definition truthy :: "int option \<Rightarrow> bool" where
  "truthy v = (case v of None \<Rightarrow> False | Some n \<Rightarrow> n \<noteq> 0)"

definition default_target :: uri where
  "default_target = \<lparr>protocol = ''file:'', host = ''.'', path = ''/''\<rparr>"

definition main_initialSequence :: "env \<Rightarrow> options \<Rightarrow> world \<Rightarrow> error + number" where
  "main_initialSequence e options w =
     (let targetURI = (case target options of Some u \<Rightarrow> u | None \<Rightarrow> default_target)
      in if truthy (initialSequence options) then Inr (Num (the (initialSequence options)))
         else (case timestamp options of
                 Some t \<Rightarrow> Inr (timestampToSequence t)
               | None \<Rightarrow> getCurrentSequence e targetURI w))"

section \<open>A concrete environment\<close>

text \<open>
  Stand-ins for the library functions, small enough to evaluate, and a world whose
  \<^verbatim>\<open>state.yaml\<close> under the default target holds sequence 99. They serve to run the
  definitions above on concrete inputs.
\<close>

definition example_env :: env where
  "example_env =
     \<lparr>JSON_stringify = (\<lambda>x. ''{}''),
      YAML_stringify = (\<lambda>st. ''sequence: '' @ toString (state_sequence st)),
      YAML_parse = (\<lambda>doc. if doc = ''sequence: 99''
                           then Inr (Entries (Some (Num 99)))
                           else Inl (YAMLError doc)),
      gzip = (\<lambda>body. ''gz:'' @ body),
      path_resolve = (\<lambda>a b. a @ b),
      path_dirname = (\<lambda>p. take 7 p),
      now = ''2018-04-09T02:00:01.000Z''\<rparr>"

definition example_world :: world where
  "example_world =
     \<lparr>files = [''./state.yaml'' \<mapsto> ''sequence: 99''],
      objects = Map.empty,
      calls = [],
      faults = [],
      started = []\<rparr>"

text \<open>
  The same with a stored sequence of \<open>2 ^ 53\<close>, the least positive integer whose
  successor is not a double.
\<close>

definition large_state_env :: env where
  "large_state_env =
     example_env\<lparr>YAML_parse := (\<lambda>doc. if doc = ''sequence: 9007199254740992''
                                      then Inr (Entries (Some (Num 9007199254740992)))
                                      else Inl (YAMLError doc))\<rparr>"

definition large_state_world :: world where
  "large_state_world =
     example_world\<lparr>files := [''./state.yaml'' \<mapsto> ''sequence: 9007199254740992'']\<rparr>"

section \<open>Properties of the batcher\<close>

lemma changes_append: "changes (xs @ ys) = changes xs @ changes ys"
  by (induction xs rule: changes.induct) simp_all

lemma start_numbers_append: "start_numbers (xs @ ys) = start_numbers xs @ start_numbers ys"
  by (induction xs) (simp_all split: hl.splits event.splits)

lemma since_last_end_snoc:
  "since_last_end (xs @ [t]) = (if is_end t then [] else since_last_end xs @ changes [t])"
  by (simp add: since_last_end_def changes_append)

lemma last_start_snoc:
  "last_start (xs @ [t]) =
     (case t of
        Val (Marker properties) \<Rightarrow>
          (if status properties = ''start'' then Some (sequenceNumber properties)
           else last_start xs)
      | _ \<Rightarrow> last_start xs)"
  by (simp add: last_start_def start_numbers_append split: hl.splits event.splits)

lemma consume_append:
  "Nil \<notin> set xs \<Longrightarrow>
   consume [] None (xs @ ys) =
     consume [] None xs @ consume (since_last_end xs) (last_start xs) ys"
proof (induction xs arbitrary: ys rule: rev_induct)
  case Nil
  show ?case by (simp add: since_last_end_def last_start_def)
next
  case (snoc t xs)
  from snoc.prems have nil: "Nil \<notin> set xs" and t: "t \<noteq> Nil" by auto
  have one: "consume [] None (xs @ [t]) =
      consume [] None xs @ consume (since_last_end xs) (last_start xs) [t]"
    using snoc.IH [OF nil, of "[t]"] .
  have all: "consume [] None (xs @ t # ys) =
      consume [] None xs @ consume (since_last_end xs) (last_start xs) (t # ys)"
    using snoc.IH [OF nil, of "t # ys"] .
  have step: "consume (since_last_end xs) (last_start xs) (t # ys) =
      consume (since_last_end xs) (last_start xs) [t]
        @ consume (since_last_end (xs @ [t])) (last_start (xs @ [t])) ys"
  proof (cases t)
    case (Err e)
    then show ?thesis by (simp add: since_last_end_snoc last_start_snoc)
  next
    case (Val x)
    then show ?thesis
      by (cases x) (simp_all add: since_last_end_snoc last_start_snoc Let_def)
  next
    case Nil
    with t show ?thesis by simp
  qed
  show ?case using one all step by simp
qed

lemma consume_changes:
  "consume batched sequence (map (\<lambda>c. Val (change c)) items @ ys) =
     consume (batched @ map change items) sequence ys"
  by (induction items arbitrary: batched) (simp_all add: change_def)

lemma consume_pair:
  "consume [] sequence (pair_events (n, items, m) @ ys) =
     (if items = [] then [] else [Val (Some n, map change items)]) @ consume [] (Some n) ys"
  by (simp add: pair_events_def start_marker_def end_marker_def consume_changes Let_def)

lemma consume_pairs:
  "consume [] sequence (concat (map pair_events ps) @ ys) =
     pair_batches ps @ consume [] (if ps = [] then sequence else Some (fst (last ps))) ys"
proof (induction ps arbitrary: sequence)
  case Nil
  show ?case by (simp add: pair_batches_def)
next
  case (Cons p ps)
  obtain n items m where p: "p = (n, items, m)" by (cases p)
  show ?case
    using Cons.IH [of "Some n"] by (simp add: p consume_pair pair_batches_def)
qed

lemma emitted_before_end:
  "Nil \<notin> set s \<Longrightarrow> Val (sq, items) \<in> set (consume [] None s) \<Longrightarrow>
   \<exists>xs t rest. s = xs @ t # rest \<and> is_end t \<and> items = since_last_end xs \<and> items \<noteq> []
     \<and> sq = last_start xs"
proof (induction s rule: rev_induct)
  case Nil
  then show ?case by simp
next
  case (snoc t ys)
  from snoc.prems have nil: "Nil \<notin> set ys" and t: "t \<noteq> Nil" by auto
  have split: "consume [] None (ys @ [t]) =
      consume [] None ys @ consume (since_last_end ys) (last_start ys) [t]"
    by (rule consume_append [OF nil])
  from snoc.prems(2) split
  consider (old) "Val (sq, items) \<in> set (consume [] None ys)"
    | (new) "Val (sq, items) \<in> set (consume (since_last_end ys) (last_start ys) [t])"
    by auto
  then show ?case
  proof cases
    case old
    from snoc.IH [OF nil old] obtain xs u rest where
      "ys = xs @ u # rest" "is_end u" "items = since_last_end xs" "items \<noteq> []"
      "sq = last_start xs" by blast
    then have "ys @ [t] = xs @ u # (rest @ [t])" by simp
    with \<open>is_end u\<close> \<open>items = since_last_end xs\<close> \<open>items \<noteq> []\<close> \<open>sq = last_start xs\<close>
    show ?thesis by blast
  next
    case new
    have "is_end t \<and> items = since_last_end ys \<and> items \<noteq> [] \<and> sq = last_start ys"
    proof (cases t)
      case (Err e)
      with new show ?thesis by simp
    next
      case (Val x)
      with new show ?thesis
        by (cases x) (auto simp: Let_def split: if_splits)
    next
      case Nil
      with t show ?thesis by simp
    qed
    then show ?thesis by blast
  qed
qed

lemma end_number_ignored:
  "consume batched sequence (xs @ Val (end_marker n) # rest) =
   consume batched sequence (xs @ Val (end_marker m) # rest)"
  by (induction batched sequence xs rule: consume.induct)
     (simp_all add: end_marker_def Let_def)

section \<open>Claims about the batcher\<close>

text \<open>
  C1, as stated: for every stream with one or more complete start/end pairs the batcher
  emits exactly one batch per pair, holding all and only the feature changes strictly
  between the pair's markers. It does not. For the stream that is one pair with nothing
  between its markers, \<^verbatim>\<open>batched.length > 0\<close> is false at the \<^verbatim>\<open>end\<close> marker and no
  batch is pushed, so the number of batches is not one. And for a feature change
  followed by one pair, the \<^verbatim>\<open>start\<close> marker does not reset \<^verbatim>\<open>batched\<close>, so the batch of
  the pair is not the feature changes between its markers: it also holds the one
  before the \<^verbatim>\<open>start\<close> marker.
\<close>

theorem batcher_one_batch_per_pair_counterexample:
  "\<not> (length (batches_of (batch_by_sequence (pair_events (7, [], 7)))) = 1)
   \<and> \<not> (batches_of (batch_by_sequence
             (Val (change (''create'', [])) # pair_events (8, [(''modify'', [])], 8)))
          = [(Some 8, [change (''modify'', [])])])"
  by (simp add: batch_by_sequence_def pair_events_def start_marker_def end_marker_def
      change_def)

text \<open>
  C1, amended: for every stream that is a succession of complete pairs (a \<^verbatim>\<open>start\<close>
  marker, feature changes, an \<^verbatim>\<open>end\<close> marker), the batcher emits one batch for each
  pair that has at least one feature change between its markers and none for a pair
  that has no feature change, in the order of the pairs; each batch carries the number
  of the pair's \<^verbatim>\<open>start\<close> marker and all and only the feature changes between the pair's
  markers, in stream order. When the stream then ends, only the end of the stream
  follows.
\<close>

theorem batcher_one_batch_per_nonempty_pair:
  "batch_by_sequence (concat (map pair_events ps)) = pair_batches ps
   \<and> batch_by_sequence (concat (map pair_events ps) @ Nil # rest) = pair_batches ps @ [Nil]"
proof
  show "batch_by_sequence (concat (map pair_events ps)) = pair_batches ps"
    using consume_pairs [of None ps "[]"] by (simp add: batch_by_sequence_def)
  show "batch_by_sequence (concat (map pair_events ps) @ Nil # rest) = pair_batches ps @ [Nil]"
    using consume_pairs [of None ps "Nil # rest"] by (simp add: batch_by_sequence_def)
qed

theorem batcher_one_batch_per_nonempty_pair_witness:
  "batch_by_sequence
     [Val (start_marker 1), Val (change (''create'', [])), Val (end_marker 1),
      Val (start_marker 2), Val (end_marker 2),
      Val (start_marker 3), Val (change (''modify'', [])), Val (change (''delete'', [])),
      Val (end_marker 3)]
   = [Val (Some 1, [change (''create'', [])]),
      Val (Some 3, [change (''modify'', []), change (''delete'', [])])]"
  using batcher_one_batch_per_nonempty_pair
    [of "[(1, [(''create'', [])], 1), (2, [], 2),
          (3, [(''modify'', []), (''delete'', [])], 3)]" "[]"]
  by (simp add: pair_events_def pair_batches_def)

text \<open>
  C6: if the stream ends while feature changes are pending, that is, feature changes
  have arrived since the last \<^verbatim>\<open>end\<close> marker (or since the beginning), the batcher emits
  exactly one more batch, holding those pending feature changes and numbered by the
  last \<^verbatim>\<open>start\<close> marker seen, and then the end of the stream.
\<close>

theorem end_of_stream_flush:
  assumes "Nil \<notin> set xs" and "since_last_end xs \<noteq> []"
  shows "batch_by_sequence (xs @ Nil # rest) =
           batch_by_sequence xs @ [Val (last_start xs, since_last_end xs), Nil]"
  using assms consume_append [of xs "Nil # rest"] by (simp add: batch_by_sequence_def)

theorem end_of_stream_flush_witness:
  "batch_by_sequence
     [Val (start_marker 4), Val (change (''create'', [])), Val (end_marker 4),
      Val (start_marker 5), Val (change (''modify'', [])), Nil]
   = [Val (Some 4, [change (''create'', [])]), Val (Some 5, [change (''modify'', [])]), Nil]"
proof -
  let ?xs = "[Val (start_marker 4), Val (change (''create'', [])), Val (end_marker 4),
              Val (start_marker 5), Val (change (''modify'', []))]"
  have a: "Nil \<notin> set ?xs" by simp
  have b: "since_last_end ?xs \<noteq> []"
    by (simp add: since_last_end_def start_marker_def end_marker_def change_def)
  show ?thesis
    using end_of_stream_flush [OF a b, of "[]"]
    by (simp add: batch_by_sequence_def since_last_end_def last_start_def
        start_marker_def end_marker_def change_def)
qed

text \<open>
  C9: on every input stream the batching stage of the revision that writes flat keys
  and the batching stage of the revision that writes sharded, compressed keys push the
  same tokens in the same order, so the same (sequence, batch) pairs.
\<close>

theorem batchers_agree:
  "batch_by_sequence_legacy s = batch_by_sequence s
   \<and> batches_of (batch_by_sequence_legacy s) = batches_of (batch_by_sequence s)"
proof -
  have "consume_legacy batched sequence s = consume batched sequence s"
    for batched sequence
    by (induction batched sequence s rule: consume.induct) (simp_all add: Let_def)
  then show ?thesis
    by (simp add: batch_by_sequence_legacy_def batch_by_sequence_def)
qed

text \<open>
  C10: every batch the batcher emits is emitted at an \<^verbatim>\<open>end\<close> marker or at the end of
  the stream, and carries the feature changes pending there and the number of the last
  \<^verbatim>\<open>start\<close> marker before that point, whatever number the \<^verbatim>\<open>end\<close> marker carries; when
  no \<^verbatim>\<open>start\<close> marker came before, the batch's sequence is the initial \<^verbatim>\<open>null\<close>. The
  number of an \<^verbatim>\<open>end\<close> marker has no influence on what is emitted.
\<close>

theorem batch_sequence_is_last_start:
  "(Val (sq, items) \<in> set (batch_by_sequence s) \<longrightarrow>
      (\<exists>xs t rest. s = xs @ t # rest \<and> Nil \<notin> set xs \<and> (is_end t \<or> t = Nil)
         \<and> items = since_last_end xs \<and> items \<noteq> []
         \<and> sq = (if start_numbers xs = [] then None else Some (last (start_numbers xs)))))
   \<and> batch_by_sequence (xs @ Val (end_marker n) # rest)
       = batch_by_sequence (xs @ Val (end_marker m) # rest)"
proof
  show "Val (sq, items) \<in> set (batch_by_sequence s) \<longrightarrow>
      (\<exists>xs t rest. s = xs @ t # rest \<and> Nil \<notin> set xs \<and> (is_end t \<or> t = Nil)
         \<and> items = since_last_end xs \<and> items \<noteq> []
         \<and> sq = (if start_numbers xs = [] then None else Some (last (start_numbers xs))))"
  proof
    assume emitted: "Val (sq, items) \<in> set (batch_by_sequence s)"
    show "\<exists>xs t rest. s = xs @ t # rest \<and> Nil \<notin> set xs \<and> (is_end t \<or> t = Nil)
         \<and> items = since_last_end xs \<and> items \<noteq> []
         \<and> sq = (if start_numbers xs = [] then None else Some (last (start_numbers xs)))"
    proof (cases "Nil \<in> set s")
      case False
      from emitted_before_end [OF False] emitted obtain xs t rest where
        d: "s = xs @ t # rest" "is_end t" "items = since_last_end xs" "items \<noteq> []"
          "sq = last_start xs"
        unfolding batch_by_sequence_def by blast
      from False d(1) have "Nil \<notin> set xs" by simp
      with d show ?thesis unfolding last_start_def by blast
    next
      case True
      then obtain ys zs where s: "s = ys @ Nil # zs" and ys: "Nil \<notin> set ys"
        by (auto dest: split_list_first)
      have out: "consume [] None s =
          consume [] None ys @ consume (since_last_end ys) (last_start ys) (Nil # zs)"
        unfolding s by (rule consume_append [OF ys])
      from emitted out
      consider (before) "Val (sq, items) \<in> set (consume [] None ys)"
        | (flush) "Val (sq, items) \<in> set (consume (since_last_end ys) (last_start ys) (Nil # zs))"
        unfolding batch_by_sequence_def by auto
      then show ?thesis
      proof cases
        case before
        from emitted_before_end [OF ys before] obtain xs t rest where
          d: "ys = xs @ t # rest" "is_end t" "items = since_last_end xs" "items \<noteq> []"
            "sq = last_start xs" by blast
        from ys d(1) have nil: "Nil \<notin> set xs" by simp
        from s d(1) have "s = xs @ t # (rest @ Nil # zs)" by simp
        with nil d show ?thesis unfolding last_start_def by blast
      next
        case flush
        then have "items = since_last_end ys \<and> items \<noteq> [] \<and> sq = last_start ys"
          by (auto split: if_splits)
        with s ys show ?thesis unfolding last_start_def by blast
      qed
    qed
  qed
  show "batch_by_sequence (xs @ Val (end_marker n) # rest)
       = batch_by_sequence (xs @ Val (end_marker m) # rest)"
    unfolding batch_by_sequence_def by (rule end_number_ignored)
qed

theorem batch_sequence_is_last_start_witness:
  "Val (None, [change (''create'', [])])
     \<in> set (batch_by_sequence [Val (change (''create'', [])), Val (end_marker 9)])
   \<and> (\<exists>xs t rest.
         [Val (change (''create'', [])), Val (end_marker 9)] = xs @ t # rest
         \<and> Nil \<notin> set xs \<and> (is_end t \<or> t = Nil)
         \<and> [change (''create'', [])] = since_last_end xs
         \<and> None = (if start_numbers xs = [] then None else Some (last (start_numbers xs))))"
proof -
  have emitted: "Val (None, [change (''create'', [])])
      \<in> set (batch_by_sequence [Val (change (''create'', [])), Val (end_marker 9)])"
    by (simp add: batch_by_sequence_def change_def end_marker_def)
  from batch_sequence_is_last_start
    [of None "[change (''create'', [])]"
        "[Val (change (''create'', [])), Val (end_marker 9)]" "[]" 0 "[]" 0]
  have "Val (None, [change (''create'', [])])
      \<in> set (batch_by_sequence [Val (change (''create'', [])), Val (end_marker 9)]) \<longrightarrow>
    (\<exists>xs t rest.
         [Val (change (''create'', [])), Val (end_marker 9)] = xs @ t # rest
         \<and> Nil \<notin> set xs \<and> (is_end t \<or> t = Nil)
         \<and> [change (''create'', [])] = since_last_end xs \<and> [change (''create'', [])] \<noteq> []
         \<and> None = (if start_numbers xs = [] then None else Some (last (start_numbers xs))))"
    by (rule conjunct1)
  with emitted show ?thesis by blast
qed

section \<open>Claims about the extraction stream\<close>

lemma find_update_first:
  "find P xs = Some x \<Longrightarrow> P (f x) \<Longrightarrow> find P (update_first P f xs) = Some (f x)"
  by (induction xs) (auto split: if_splits)

lemma ExtractionStream_each:
  "ExtractionStream objs = Inr objs' \<Longrightarrow>
   list_all2 (\<lambda>obj obj'. transform obj = Inr obj') objs objs'"
  by (induction objs arbitrary: objs') (auto split: sum.splits)

text \<open>
  C3: a marker passes through the extraction stream unchanged; and for every feature
  change the stream emits, the emitted object has the same operation, and its new
  feature (the first feature with id \<^verbatim>\<open>new\<close>) has \<^verbatim>\<open>visible\<close> equal to whether the
  operation is not \<^verbatim>\<open>delete\<close>: false if and only if the operation is \<^verbatim>\<open>delete\<close>. Every
  object the stream emits is the result of this transformation of the object read at
  the same position.
\<close>

theorem annotator_visibility:
  "transform (Marker properties) = Inr (Marker properties)
   \<and> (transform (FeatureCollection op fs) = Inr obj' \<longrightarrow>
        (\<exists>fs' f. obj' = FeatureCollection op fs'
           \<and> find (\<lambda>f. feature_id f = ''new'') fs' = Some f
           \<and> visible f = Some (op \<noteq> ''delete'')
           \<and> (visible f = Some False \<longleftrightarrow> op = ''delete'')))
   \<and> (ExtractionStream objs = Inr objs' \<longrightarrow>
        list_all2 (\<lambda>obj obj'. transform obj = Inr obj') objs objs')"
proof (intro conjI impI)
  show "transform (Marker properties) = Inr (Marker properties)"
    by (simp add: transform_def)
next
  assume t: "transform (FeatureCollection op fs) = Inr obj'"
  then obtain x where x: "find (\<lambda>f. feature_id f = ''new'') fs = Some x"
    by (auto simp: transform_def split: option.splits)
  then have new: "feature_id x = ''new''"
    by (auto simp: find_Some_iff)
  let ?f = "\<lambda>f. f\<lparr>visible := Some (op \<noteq> ''delete'')\<rparr>"
  let ?fs' = "update_first (\<lambda>f. feature_id f = ''new'') ?f fs"
  from t x have obj': "obj' = FeatureCollection op ?fs'"
    by (simp add: transform_def)
  have "find (\<lambda>f. feature_id f = ''new'') ?fs' = Some (?f x)"
    using x new by (intro find_update_first) simp_all
  with obj' show "\<exists>fs' f. obj' = FeatureCollection op fs'
           \<and> find (\<lambda>f. feature_id f = ''new'') fs' = Some f
           \<and> visible f = Some (op \<noteq> ''delete'')
           \<and> (visible f = Some False \<longleftrightarrow> op = ''delete'')"
    by (intro exI [of _ ?fs'] exI [of _ "?f x"]) simp
next
  assume "ExtractionStream objs = Inr objs'"
  then show "list_all2 (\<lambda>obj obj'. transform obj = Inr obj') objs objs'"
    by (rule ExtractionStream_each)
qed

theorem annotator_visibility_witness:
  "transform (FeatureCollection ''delete''
      [\<lparr>feature_id = ''old'', visible = None, payload = ''B''\<rparr>,
       \<lparr>feature_id = ''new'', visible = None, payload = ''B''\<rparr>])
     = Inr (FeatureCollection ''delete''
         [\<lparr>feature_id = ''old'', visible = None, payload = ''B''\<rparr>,
          \<lparr>feature_id = ''new'', visible = Some False, payload = ''B''\<rparr>])
   \<and> (\<exists>fs' f.
         FeatureCollection ''delete''
           [\<lparr>feature_id = ''old'', visible = None, payload = ''B''\<rparr>,
            \<lparr>feature_id = ''new'', visible = Some False, payload = ''B''\<rparr>]
           = FeatureCollection ''delete'' fs'
         \<and> find (\<lambda>f. feature_id f = ''new'') fs' = Some f
         \<and> visible f = Some (''delete'' \<noteq> ''delete'')
         \<and> (visible f = Some False \<longleftrightarrow> ''delete'' = ''delete''))
   \<and> ExtractionStream [Marker \<lparr>status = ''start'', sequenceNumber = 1\<rparr>]
       = Inr [Marker \<lparr>status = ''start'', sequenceNumber = 1\<rparr>]
   \<and> list_all2 (\<lambda>obj obj'. transform obj = Inr obj')
        [Marker \<lparr>status = ''start'', sequenceNumber = 1\<rparr>]
        [Marker \<lparr>status = ''start'', sequenceNumber = 1\<rparr>]"
proof -
  let ?fs = "[\<lparr>feature_id = ''old'', visible = None, payload = ''B''\<rparr>,
              \<lparr>feature_id = ''new'', visible = None, payload = ''B''\<rparr>]"
  let ?obj' = "FeatureCollection ''delete''
         [\<lparr>feature_id = ''old'', visible = None, payload = ''B''\<rparr>,
          \<lparr>feature_id = ''new'', visible = Some False, payload = ''B''\<rparr>]"
  let ?p = "\<lparr>status = ''start'', sequenceNumber = 1\<rparr>"
  have t: "transform (FeatureCollection ''delete'' ?fs) = Inr ?obj'"
    by (simp add: transform_def)
  have s: "ExtractionStream [Marker ?p] = Inr [Marker ?p]"
    by (simp add: transform_def)
  note inst = annotator_visibility
    [of ?p "''delete''" ?fs ?obj' "[Marker ?p]" "[Marker ?p]"]
  from inst t have a: "\<exists>fs' f. ?obj' = FeatureCollection ''delete'' fs'
         \<and> find (\<lambda>f. feature_id f = ''new'') fs' = Some f
         \<and> visible f = Some (''delete'' \<noteq> ''delete'')
         \<and> (visible f = Some False \<longleftrightarrow> ''delete'' = ''delete'')"
    by blast
  from inst s have b: "list_all2 (\<lambda>obj obj'. transform obj = Inr obj') [Marker ?p] [Marker ?p]"
    by blast
  from t a s b show ?thesis by (intro conjI)
qed

section \<open>Claims about sequence numbers and timestamps\<close>

lemma to_double_exact: "\<bar>x\<bar> < 2 ^ 53 \<Longrightarrow> to_double x = Num x"
  by (auto simp: to_double_def Let_def)

lemma sequenceToTimestamp_valid:
  assumes "0 \<le> n" and "n \<le> 143977542785"
  shows "sequenceToTimestamp n = Date (Some ((1347432900 + n * 60) * 1000))"
proof -
  from assms have a: "\<bar>n * 60\<bar> < 2 ^ 53" by simp
  from assms have b: "\<bar>n * 60 + 1347432900\<bar> < 2 ^ 53" by simp
  from assms have c: "\<bar>(n * 60 + 1347432900) * 1000\<bar> < 2 ^ 53" by simp
  from assms have d: "\<bar>(n * 60 + 1347432900) * 1000\<bar> \<le> 8640000000000000" by simp
  have 1: "js_mul (Num n) (Num 60) = Num (n * 60)"
    unfolding js_mul_def using a by (simp only: prod.case number.case to_double_exact)
  have 2: "js_add (Num (n * 60)) (Num 1347432900) = Num (n * 60 + 1347432900)"
    unfolding js_add_def using b by (simp only: prod.case number.case to_double_exact)
  have 3: "js_mul (Num (n * 60 + 1347432900)) (Num 1000) = Num ((n * 60 + 1347432900) * 1000)"
    unfolding js_mul_def using c by (simp only: prod.case number.case to_double_exact)
  have "sequenceToTimestamp n = new_Date (Num ((n * 60 + 1347432900) * 1000))"
    by (simp only: sequenceToTimestamp_def 1 2 3)
  with d show ?thesis by (simp add: new_Date_def add.commute)
qed

lemma sequenceToTimestamp_beyond: "sequenceToTimestamp 143977542786 = Date None"
  by (simp add: sequenceToTimestamp_def js_mul_def js_add_def to_double_exact new_Date_def)

text \<open>
  C5, as stated: for every non-negative integer \<open>n\<close>,
  \<^verbatim>\<open>timestampToSequence(sequenceToTimestamp(n))\<close> is \<open>n\<close>. It is not for
  \<open>n = 143977542786\<close>: the time value \<open>(n * 60 + 1347432900) * 1000\<close> is
  8640000000060000, beyond the largest time value of a \<^verbatim>\<open>Date\<close>, so
  \<^verbatim>\<open>sequenceToTimestamp\<close> returns an invalid date, \<^verbatim>\<open>Date.parse\<close> of it is \<^verbatim>\<open>NaN\<close>, and
  so is the result.
\<close>

theorem round_trip_beyond_date_range_counterexample:
  "\<not> (timestampToSequence (DateObject (sequenceToTimestamp 143977542786)) = Num 143977542786)
   \<and> timestampToSequence (DateObject (sequenceToTimestamp 143977542786)) = NaN"
  by (simp add: sequenceToTimestamp_beyond timestampToSequence_def)

text \<open>
  C5, amended: for every integer \<open>n\<close> with \<open>0 \<le> n \<le> 143977542785\<close>, that is, for
  every non-negative sequence whose timestamp is a valid date, \<^verbatim>\<open>sequenceToTimestamp(n)\<close>
  is the date \<open>1347432900 + n * 60\<close> seconds after the epoch, and
  \<^verbatim>\<open>timestampToSequence\<close> of it, the ceiling of the seconds since 1347432900 divided by
  60, is \<open>n\<close> again.
\<close>

theorem sequence_timestamp_round_trip:
  assumes "0 \<le> n" and "n \<le> 143977542785"
  shows "timestampToSequence (DateObject (sequenceToTimestamp n)) = Num n
         \<and> sequenceToTimestamp n = Date (Some ((1347432900 + n * 60) * 1000))"
proof -
  have "(real_of_int ((1347432900 + n * 60) * 1000 div 1000 * 1000) / 1000 - 1347432900) / 60
      = real_of_int n"
    by (simp add: field_simps)
  then have "\<lceil>(real_of_int ((1347432900 + n * 60) * 1000 div 1000 * 1000) / 1000
               - 1347432900) / 60\<rceil> = n"
    by (simp only: ceiling_of_int)
  then show ?thesis
    by (simp add: timestampToSequence_def sequenceToTimestamp_valid [OF assms])
qed

theorem sequence_timestamp_round_trip_witness:
  "(0::int) \<le> 143977542785
   \<and> timestampToSequence (DateObject (sequenceToTimestamp 143977542785)) = Num 143977542785
   \<and> sequenceToTimestamp 143977542785 = Date (Some 8640000000000000)"
proof -
  have a: "(0::int) \<le> 143977542785" and b: "(143977542785::int) \<le> 143977542785" by simp_all
  note inst = sequence_timestamp_round_trip [OF a b]
  have c: "timestampToSequence (DateObject (sequenceToTimestamp 143977542785))
      = Num 143977542785"
    by (rule inst [THEN conjunct1])
  have "sequenceToTimestamp 143977542785 = Date (Some ((1347432900 + 143977542785 * 60) * 1000))"
    by (rule inst [THEN conjunct2])
  then have d: "sequenceToTimestamp 143977542785 = Date (Some 8640000000000000)"
    by simp
  from a c d show ?thesis by (intro conjI)
qed

section \<open>Claims about where to start\<close>

lemma spacing_at_limit: "spacing 9007199254740992 (Suc 0) = 2"
  by (simp add: spacing.simps [of _ "Suc 0"] spacing.simps [of _ 2])

lemma spacing_past_limit: "spacing 9007199254740993 (Suc 0) = 2"
  by (simp add: spacing.simps [of _ "Suc 0"] spacing.simps [of _ 2])

lemma to_double_at_limit: "to_double 9007199254740992 = Num 9007199254740992"
  by (simp add: to_double_def spacing_at_limit Let_def)

lemma to_double_past_limit: "to_double 9007199254740993 = Num 9007199254740992"
  by (simp add: to_double_def spacing_past_limit Let_def)

lemma plus_one_exact:
  assumes "- (2 ^ 53) \<le> N" and "N < 2 ^ 53"
  shows "js_add (Num N) (Num 1) = Num (N + 1)"
proof (cases "N + 1 < 2 ^ 53")
  case True
  with assms have "\<bar>N + 1\<bar> < 2 ^ 53" by simp
  then show ?thesis by (simp add: js_add_def to_double_exact)
next
  case False
  with assms have "N + 1 = 9007199254740992" by simp
  then show ?thesis by (simp add: js_add_def to_double_at_limit)
qed

text \<open>
  C4, as stated: for every stored state whose sequence is \<open>N\<close>, the start is \<open>N + 1\<close>.
  It is not for \<open>N = 2 ^ 53\<close>: \<^verbatim>\<open>state.sequence + 1\<close> is an addition of doubles, the
  exact sum 9007199254740993 is not a double and rounds to 9007199254740992, so
  \<^verbatim>\<open>getCurrentSequence\<close> returns \<open>N\<close>.
\<close>

theorem resume_beyond_safe_integers_counterexample:
  "\<not> (getCurrentSequence large_state_env default_target large_state_world
        = Inr (Num (9007199254740992 + 1)))
   \<and> getCurrentSequence large_state_env default_target large_state_world
        = Inr (Num 9007199254740992)"
  by (simp add: getCurrentSequence_def large_state_env_def large_state_world_def
      example_env_def example_world_def default_target_def plus_one_def js_add_def
      to_double_past_limit)

text \<open>
  C4, amended: when neither an initial sequence nor a timestamp is given and the state
  object stored under the target (the file \<^verbatim>\<open>state.yaml\<close> under a \<^verbatim>\<open>file:\<close> target, the
  object \<^verbatim>\<open>state.yaml\<close> under an \<^verbatim>\<open>s3:\<close> target) parses to a state whose sequence is an
  integer \<open>N\<close> with \<open>- 2 ^ 53 \<le> N < 2 ^ 53\<close>, then \<^verbatim>\<open>getCurrentSequence\<close> returns
  \<open>N + 1\<close>, and that is the initial sequence \<^verbatim>\<open>main\<close> selects.
\<close>

theorem resume_after_stored_sequence:
  assumes "initialSequence opts = None" and "timestamp opts = None"
    and "u = (case target opts of Some u' \<Rightarrow> u' | None \<Rightarrow> default_target)"
    and "(protocol u = ''file:''
            \<and> files w (path_resolve e (host u @ path u) ''state.yaml'') = Some doc)
         \<or> (protocol u = ''s3:''
            \<and> objects w (host u, drop 1 (path u) @ ''state.yaml'') = Some doc)"
    and "YAML_parse e doc = Inr (Entries (Some (Num N)))"
    and "- (2 ^ 53) \<le> N" and "N < 2 ^ 53"
  shows "getCurrentSequence e u w = Inr (Num (N + 1))
         \<and> main_initialSequence e opts w = Inr (Num (N + 1))"
proof -
  have p: "plus_one (Entries (Some (Num N))) = Inr (Num (N + 1))"
    by (simp add: plus_one_def plus_one_exact [OF assms(6,7)])
  from assms(4,5) p have g: "getCurrentSequence e u w = Inr (Num (N + 1))"
    by (auto simp: getCurrentSequence_def)
  with assms(1-3) show ?thesis
    by (simp add: main_initialSequence_def truthy_def)
qed

theorem resume_after_stored_sequence_witness:
  "getCurrentSequence example_env default_target example_world = Inr (Num 100)
   \<and> main_initialSequence example_env
        \<lparr>initialSequence = None, timestamp = None, target = None\<rparr> example_world
      = Inr (Num 100)"
proof -
  let ?opts = "\<lparr>initialSequence = None, timestamp = None, target = None\<rparr>"
  have 1: "initialSequence ?opts = None" and 2: "timestamp ?opts = None" by simp_all
  have 3: "default_target = (case target ?opts of Some u' \<Rightarrow> u' | None \<Rightarrow> default_target)"
    by simp
  have 4: "(protocol default_target = ''file:''
            \<and> files example_world
                 (path_resolve example_env (host default_target @ path default_target)
                    ''state.yaml'') = Some ''sequence: 99'')
         \<or> (protocol default_target = ''s3:''
            \<and> objects example_world
                 (host default_target, drop 1 (path default_target) @ ''state.yaml'')
                = Some ''sequence: 99'')"
    by (simp add: default_target_def example_world_def example_env_def)
  have 5: "YAML_parse example_env ''sequence: 99'' = Inr (Entries (Some (Num 99)))"
    by (simp add: example_env_def)
  have 6: "- (2 ^ 53) \<le> (99::int)" and 7: "(99::int) < 2 ^ 53" by simp_all
  from resume_after_stored_sequence [OF 1 2 3 4 5 6 7] show ?thesis by simp
qed

text \<open>
  C8 says that an explicitly supplied sequence 0 is used verbatim. \<^verbatim>\<open>main\<close> tests
  \<^verbatim>\<open>options.initialSequence\<close> for truth, and 0 is not true: with \<^verbatim>\<open>-i 0\<close> and no
  timestamp the stored state is read (here sequence 99, so the start is 100), and with
  \<^verbatim>\<open>-i 0\<close> and a timestamp the timestamp decides.
\<close>

theorem explicit_sequence_zero_not_used:
  "main_initialSequence example_env
     \<lparr>initialSequence = Some 0, timestamp = None, target = None\<rparr> example_world
     = Inr (Num 100)
   \<and> main_initialSequence example_env
     \<lparr>initialSequence = Some 0, timestamp = Some (DateString (Some 1347433020000)),
      target = None\<rparr>
     example_world = Inr (Num 2)"
  by (simp add: main_initialSequence_def truthy_def getCurrentSequence_def
      default_target_def example_world_def example_env_def timestampToSequence_def
      plus_one_def js_add_def to_double_exact)

text \<open>
  Any other explicitly supplied sequence is used as it is, whatever the timestamp
  option and the stored state are.
\<close>

lemma explicit_nonzero_sequence_verbatim:
  "n \<noteq> 0 \<Longrightarrow> initialSequence opts = Some n \<Longrightarrow> main_initialSequence e opts w = Inr (Num n)"
  by (simp add: main_initialSequence_def truthy_def)

section \<open>Claims about the key of a sequence\<close>

lemma length_zero_padded: "length (zero_padded k n) = k"
  by (induction k arbitrary: n) simp_all

lemma zero_padded_zero: "zero_padded k 0 = replicate k CHR ''0''"
  by (induction k) (simp_all add: digit_char_def replicate_append_same)

lemma digits_padded:
  "0 < k \<Longrightarrow> n < 10 ^ k \<Longrightarrow>
   length (digits n) \<le> k \<and> replicate (k - length (digits n)) CHR ''0'' @ digits n = zero_padded k n"
proof (induction k arbitrary: n)
  case 0
  then show ?case by simp
next
  case (Suc k)
  show ?case
  proof (cases "n < 10")
    case True
    then have d: "digits n = [digit_char n]" by (simp add: digits.simps [of n])
    from True have "n div 10 = 0" "n mod 10 = n" by simp_all
    with d show ?thesis by (simp add: zero_padded_zero)
  next
    case False
    then have d: "digits n = digits (n div 10) @ [digit_char (n mod 10)]"
      by (simp add: digits.simps [of n])
    from False Suc.prems have k: "0 < k" by (cases k) simp_all
    from Suc.prems have "n div 10 < 10 ^ k" by (simp add: less_mult_imp_div_less mult.commute)
    from Suc.IH [OF k this] d show ?thesis by (simp add: Suc_diff_le)
  qed
qed

lemma zero_padded_add:
  "zero_padded (a + b) n = zero_padded a (n div 10 ^ b) @ zero_padded b n"
  by (induction b arbitrary: n) (simp_all add: div_mult2_eq)

lemma zero_padded_mod: "zero_padded k (n mod 10 ^ k) = zero_padded k n"
proof (induction k arbitrary: n)
  case 0
  show ?case by simp
next
  case (Suc k)
  have a: "n mod 10 ^ Suc k div 10 = (n div 10) mod 10 ^ k"
    by (simp add: mod_mult2_eq)
  have b: "n mod 10 ^ Suc k mod 10 = n mod 10"
    by (simp add: mod_mod_cancel)
  show ?case by (simp only: zero_padded.simps a b Suc.IH)
qed

lemma zero_padded_9:
  "zero_padded 9 n =
     zero_padded 3 (n div 1000000) @ zero_padded 3 (n div 1000 mod 1000) @ zero_padded 3 (n mod 1000)"
proof -
  have "zero_padded (3 + 6) n = zero_padded 3 (n div 10 ^ 6) @ zero_padded 6 n"
    by (rule zero_padded_add)
  moreover have "zero_padded (3 + 3) n = zero_padded 3 (n div 10 ^ 3) @ zero_padded 3 n"
    by (rule zero_padded_add)
  moreover have "zero_padded 3 (n div 10 ^ 3) = zero_padded 3 (n div 10 ^ 3 mod 10 ^ 3)"
    by (rule zero_padded_mod [symmetric])
  moreover have "zero_padded 3 n = zero_padded 3 (n mod 10 ^ 3)"
    by (rule zero_padded_mod [symmetric])
  ultimately show ?thesis by simp
qed

lemma sequencePath_groups:
  assumes "0 \<le> n" "n < 1000000000"
  shows "sequencePath n =
     zero_padded 3 (nat n div 1000000) @ ''/'' @ zero_padded 3 (nat n div 1000 mod 1000)
       @ ''/'' @ zero_padded 3 (nat n mod 1000)"
proof -
  from assms have lt: "nat n < 10 ^ 9" by simp
  from digits_padded [OF _ lt]
  have pad: "padStart 9 CHR ''0'' (toString n) = zero_padded 9 (nat n)"
    using assms by (simp add: padStart_def toString_def)
  have l: "length (zero_padded 3 x) = 3" for x by (rule length_zero_padded)
  show ?thesis
    by (simp add: sequencePath_def pad zero_padded_9 slice_def l del: zero_padded.simps)
qed

lemma zero_padded_3:
  "zero_padded 3 n = [digit_char (n div 100 mod 10), digit_char (n div 10 mod 10), digit_char (n mod 10)]"
proof -
  have "zero_padded (Suc (Suc (Suc 0))) n
      = [digit_char (n div 100 mod 10), digit_char (n div 10 mod 10), digit_char (n mod 10)]"
  proof -
    have "n div 10 div 10 = n div 100" by (simp add: div_mult2_eq [symmetric])
    then show ?thesis by simp
  qed
  then show ?thesis by (simp only: numeral_3_eq_3)
qed

lemma length_padStart: "9 \<le> length (padStart 9 c s)"
  by (simp add: padStart_def)

text \<open>
  C7: the key of the data object of a sequence is the sequence's decimal numeral padded
  with zeros on the left to nine characters, cut into three groups of three characters
  joined by \<^verbatim>\<open>/\<close>, followed by \<^verbatim>\<open>.json.gz\<close>; for a sequence of at most nine digits the
  groups are the three-digit numerals of the millions, the thousands and the units.
  For sequence 42 the key is \<^verbatim>\<open>000/000/042.json.gz\<close>, and that is the key under which
  \<^verbatim>\<open>writer\<close> puts the data object below the prefix of an \<^verbatim>\<open>s3:\<close> target. For the feed
  \<^verbatim>\<open>start(42)\<close>, \<^verbatim>\<open>create(A)\<close>, \<^verbatim>\<open>delete(B)\<close>, \<^verbatim>\<open>end(42)\<close>, extraction and batching
  produce exactly one batch, of sequence 42, holding A with \<^verbatim>\<open>visible\<close> true and then B
  with \<^verbatim>\<open>visible\<close> false.
\<close>

theorem sharded_key:
  "(let s = padStart 9 CHR ''0'' (toString n)
    in sequencePath n @ ''.json.gz''
         = take 3 s @ ''/'' @ take 3 (drop 3 s) @ ''/'' @ take 3 (drop 6 s) @ ''.json.gz''
       \<and> length (take 3 s) = 3 \<and> length (take 3 (drop 3 s)) = 3
       \<and> length (take 3 (drop 6 s)) = 3)
   \<and> (0 \<le> n \<and> n < 1000000000 \<longrightarrow>
        sequencePath n @ ''.json.gz''
          = zero_padded 3 (nat n div 1000000) @ ''/'' @ zero_padded 3 (nat n div 1000 mod 1000)
              @ ''/'' @ zero_padded 3 (nat n mod 1000) @ ''.json.gz'')
   \<and> sequencePath 42 @ ''.json.gz'' = ''000/000/042.json.gz''
   \<and> (protocol u = ''s3:'' \<and> faults w = [] \<longrightarrow>
        calls (snd (writer e u (Some 42, batch) w))
          = calls w @
            [(PutObject (host u) (drop 1 (path u) @ ''000/000/042.json.gz'')
                (gzip e (concat (map (\<lambda>x. JSON_stringify e x @ [CHR 0x0A]) batch)))
                ''application/json'', True),
             (PutObject (host u) (drop 1 (path u) @ ''state.yaml'')
                (YAML_stringify e \<lparr>state_last_run = now e, state_sequence = 42\<rparr>)
                ''application/vnd.yaml'', True)])
   \<and> extract_and_batch
        [start_marker 42,
         FeatureCollection ''create'' [\<lparr>feature_id = ''new'', visible = va, payload = a\<rparr>],
         FeatureCollection ''delete''
           [\<lparr>feature_id = ''old'', visible = vo, payload = b\<rparr>,
            \<lparr>feature_id = ''new'', visible = vb, payload = b\<rparr>],
         end_marker 42]
       = Inr [Val (Some 42,
           [FeatureCollection ''create''
              [\<lparr>feature_id = ''new'', visible = Some True, payload = a\<rparr>],
            FeatureCollection ''delete''
              [\<lparr>feature_id = ''old'', visible = vo, payload = b\<rparr>,
               \<lparr>feature_id = ''new'', visible = Some False, payload = b\<rparr>]])]"
proof (intro conjI impI)
  have l: "9 \<le> length (padStart 9 CHR ''0'' (toString n))"
    by (rule length_padStart)
  then show "let s = padStart 9 CHR ''0'' (toString n)
    in sequencePath n @ ''.json.gz''
         = take 3 s @ ''/'' @ take 3 (drop 3 s) @ ''/'' @ take 3 (drop 6 s) @ ''.json.gz''
       \<and> length (take 3 s) = 3 \<and> length (take 3 (drop 3 s)) = 3
       \<and> length (take 3 (drop 6 s)) = 3"
    by (simp add: sequencePath_def slice_def Let_def)
next
  assume "0 \<le> n \<and> n < 1000000000"
  then show "sequencePath n @ ''.json.gz''
          = zero_padded 3 (nat n div 1000000) @ ''/'' @ zero_padded 3 (nat n div 1000 mod 1000)
              @ ''/'' @ zero_padded 3 (nat n mod 1000) @ ''.json.gz''"
    by (simp add: sequencePath_groups del: zero_padded.simps)
next
  show k: "sequencePath 42 @ ''.json.gz'' = ''000/000/042.json.gz''"
    by code_simp
  assume "protocol u = ''s3:'' \<and> faults w = []"
  then show "calls (snd (writer e u (Some 42, batch) w))
          = calls w @
            [(PutObject (host u) (drop 1 (path u) @ ''000/000/042.json.gz'')
                (gzip e (concat (map (\<lambda>x. JSON_stringify e x @ [CHR 0x0A]) batch)))
                ''application/json'', True),
             (PutObject (host u) (drop 1 (path u) @ ''state.yaml'')
                (YAML_stringify e \<lparr>state_last_run = now e, state_sequence = 42\<rparr>)
                ''application/vnd.yaml'', True)]"
    using k by (simp add: writer_def perform_def Let_def sequenceToTimestamp_valid)
next
  show "extract_and_batch
        [start_marker 42,
         FeatureCollection ''create'' [\<lparr>feature_id = ''new'', visible = va, payload = a\<rparr>],
         FeatureCollection ''delete''
           [\<lparr>feature_id = ''old'', visible = vo, payload = b\<rparr>,
            \<lparr>feature_id = ''new'', visible = vb, payload = b\<rparr>],
         end_marker 42]
       = Inr [Val (Some 42,
           [FeatureCollection ''create''
              [\<lparr>feature_id = ''new'', visible = Some True, payload = a\<rparr>],
            FeatureCollection ''delete''
              [\<lparr>feature_id = ''old'', visible = vo, payload = b\<rparr>,
               \<lparr>feature_id = ''new'', visible = Some False, payload = b\<rparr>]])]"
    by (simp add: extract_and_batch_def transform_def batch_by_sequence_def
        start_marker_def end_marker_def)
qed

theorem sharded_key_witness:
  "(0 \<le> (1234567::int) \<and> (1234567::int) < 1000000000)
   \<and> sequencePath 1234567 @ ''.json.gz'' = ''001/234/567.json.gz''
   \<and> protocol \<lparr>protocol = ''s3:'', host = ''bucket'', path = ''/augdiffs/''\<rparr> = ''s3:''
   \<and> faults example_world = []
   \<and> map fst (calls (snd (writer example_env
          \<lparr>protocol = ''s3:'', host = ''bucket'', path = ''/augdiffs/''\<rparr>
          (Some 42, []) example_world)))
       = [PutObject ''bucket'' ''augdiffs/000/000/042.json.gz'' ''gz:'' ''application/json'',
          PutObject ''bucket'' ''augdiffs/state.yaml'' ''sequence: 42'' ''application/vnd.yaml'']"
proof -
  let ?u = "\<lparr>protocol = ''s3:'', host = ''bucket'', path = ''/augdiffs/''\<rparr>"
  note inst = sharded_key [of 1234567 ?u example_world example_env "[]"]
  have r: "0 \<le> (1234567::int) \<and> (1234567::int) < 1000000000" by simp
  have p: "protocol ?u = ''s3:'' \<and> faults example_world = []"
    by (simp add: example_world_def)
  have a: "sequencePath 1234567 @ ''.json.gz''
          = zero_padded 3 (nat 1234567 div 1000000) @ ''/''
              @ zero_padded 3 (nat 1234567 div 1000 mod 1000)
              @ ''/'' @ zero_padded 3 (nat 1234567 mod 1000) @ ''.json.gz''"
    by (rule inst [THEN conjunct2, THEN conjunct1, THEN mp, OF r])
  have z: "zero_padded 3 (nat 1234567 div 1000000) @ ''/''
              @ zero_padded 3 (nat 1234567 div 1000 mod 1000)
              @ ''/'' @ zero_padded 3 (nat 1234567 mod 1000) @ ''.json.gz''
           = ''001/234/567.json.gz''"
    by (simp add: zero_padded_3 digit_char_def del: zero_padded.simps)
  have c: "calls (snd (writer example_env ?u (Some 42, []) example_world))
          = calls example_world @
            [(PutObject (host ?u) (drop 1 (path ?u) @ ''000/000/042.json.gz'')
                (gzip example_env
                   (concat (map (\<lambda>x. JSON_stringify example_env x @ [CHR 0x0A]) [])))
                ''application/json'', True),
             (PutObject (host ?u) (drop 1 (path ?u) @ ''state.yaml'')
                (YAML_stringify example_env
                   \<lparr>state_last_run = now example_env, state_sequence = 42\<rparr>)
                ''application/vnd.yaml'', True)]"
    by (rule inst [THEN conjunct2, THEN conjunct2, THEN conjunct2, THEN conjunct1, THEN mp, OF p])
  have t: "toString 42 = ''42''" by code_simp
  have d: "map fst (calls (snd (writer example_env ?u (Some 42, []) example_world)))
       = [PutObject ''bucket'' ''augdiffs/000/000/042.json.gz'' ''gz:'' ''application/json'',
          PutObject ''bucket'' ''augdiffs/state.yaml'' ''sequence: 42'' ''application/vnd.yaml'']"
    unfolding c by (simp add: example_world_def example_env_def t)
  have k: "sequencePath 1234567 @ ''.json.gz'' = ''001/234/567.json.gz''"
    using a z by (rule trans)
  from p have p1: "protocol ?u = ''s3:''" and p2: "faults example_world = []"
    by (rule conjunct1, rule conjunct2)
  from r k p1 p2 d show ?thesis by blast
qed

section \<open>Claims about the publisher\<close>

lemma writer_invalid:
  assumes "sequenceToTimestamp n = Date None"
  shows "writer e u (Some n, batch) w = (Unhandled (RangeError ''Invalid time value''), w)"
  using assms by (simp add: writer_def)

lemma writer_s3:
  assumes "writer e u (Some n, batch) w = (r, w')"
    and "sequenceToTimestamp n = Date (Some ms)" and "protocol u = ''s3:''"
  shows "(\<exists>msg. r = Callback (Some (IOError msg))
            \<and> calls w' = calls w @ [(put_data e u n batch, False)]
            \<and> objects w' = objects w \<and> files w' = files w)
       \<or> (\<exists>msg. r = Callback (Some (IOError msg))
            \<and> calls w' = calls w @ [(put_data e u n batch, True), (put_state e u n, False)]
            \<and> objects w' = (objects w)((host u, drop 1 (path u) @ sequencePath n @ ''.json.gz'')
                  \<mapsto> gzip e (body_of e batch)))
       \<or> (r = Callback None
            \<and> calls w' = calls w @ [(put_data e u n batch, True), (put_state e u n, True)])"
  using assms
  by (auto simp: writer_def perform_def Let_def put_data_def put_state_def body_of_def
      state_of_def split: list.splits option.splits)

lemma writer_file:
  assumes "writer e u (Some n, batch) w = (r, w')"
    and "sequenceToTimestamp n = Date (Some ms)" and "protocol u = ''file:''"
  shows "(\<exists>msg. r = Callback (Some (IOError msg))
            \<and> calls w' = calls w @ [(make_dirs e u n, False)]
            \<and> files w' = files w \<and> objects w' = objects w)
       \<or> (\<exists>msg. r = Callback (Some (IOError msg))
            \<and> calls w' = calls w @ [(make_dirs e u n, True), (write_data e u n batch, False)]
            \<and> files w' = files w \<and> objects w' = objects w)
       \<or> (\<exists>msg. r = Callback (Some (IOError msg))
            \<and> calls w' = calls w @ [(make_dirs e u n, True), (write_data e u n batch, True),
                                     (write_state e u n, False)])
       \<or> (r = Callback None
            \<and> calls w' = calls w @ [(make_dirs e u n, True), (write_data e u n batch, True),
                                     (write_state e u n, True)])"
  using assms
  by (auto simp: writer_def perform_def Let_def make_dirs_def write_data_def write_state_def
      body_of_def state_of_def split: list.splits option.splits)

lemma writer_other:
  assumes "writer e u (Some n, batch) w = (r, w')"
    and "sequenceToTimestamp n = Date (Some ms)"
    and "protocol u \<noteq> ''s3:''" and "protocol u \<noteq> ''file:''"
  shows "r = Callback (Some (UnsupportedProtocol (protocol u))) \<and> w' = w"
  using assms by (auto simp: writer_def Let_def)

lemma writer_null:
  "writer e u (None, batch) w
     = (Unhandled (TypeError ''Cannot read property toString of null''), w)"
proof -
  have "sequenceToTimestamp 0 = Date (Some ((1347432900 + 0 * 60) * 1000))"
    by (rule sequenceToTimestamp_valid) simp_all
  then show ?thesis by (simp add: writer_def)
qed

lemma writer_enter_keeps:
  assumes "writer_enter e u sb w = (x, w')"
  shows "files w' = files w \<and> objects w' = objects w \<and> calls w' = calls w"
  using assms
  by (auto simp: writer_enter_def split: prod.splits date.splits option.splits if_splits)

lemma run_rejected:
  assumes "run e u s (Some err0) w = (r, w')"
  shows "r = Some err0 \<and> files w' = files w \<and> objects w' = objects w \<and> calls w' = calls w"
  using assms
proof (induction s arbitrary: w)
  case Nil
  then show ?case by simp
next
  case (Cons t s)
  show ?case
  proof (cases t)
    case (Err err)
    with Cons show ?thesis by simp
  next
    case Nil
    with Cons.prems show ?thesis by simp
  next
    case (Val sb)
    obtain x w1 where en: "writer_enter e u sb w = (x, w1)"
      by (cases "writer_enter e u sb w")
    note keep = writer_enter_keeps [OF en]
    show ?thesis
    proof (cases x)
      case None
      with Cons.prems Val en keep show ?thesis by simp
    next
      case (Some out)
      show ?thesis
      proof (cases out)
        case (Callback c)
        with Cons.prems Val en Some have "run e u s (Some err0) w1 = (r, w')" by simp
        from Cons.IH [OF this] keep show ?thesis by simp
      next
        case (Unhandled err)
        with Cons.prems Val en Some keep show ?thesis by simp
      qed
    qed
  qed
qed

lemma publish_after_error:
  assumes "writer e u sb w = (Callback (Some err), w')"
  shows "\<exists>w''. publish e u (Val sb # rest) w = (Some err, w'')
           \<and> files w'' = files w' \<and> objects w'' = objects w' \<and> calls w'' = calls w'"
proof -
  obtain r w'' where run: "run e u rest (Some err) w' = (r, w'')"
    by (cases "run e u rest (Some err) w'")
  from run_rejected [OF run] run assms show ?thesis
    by (simp add: publish_def)
qed

text \<open>
  C2: in every invocation of \<^verbatim>\<open>writer\<close> for a batch of sequence \<open>n\<close>, the calls made to the
  sink are, in this order and each at most once, the creation of the directory (for a
  \<^verbatim>\<open>file:\<close> target), the write of the data object and the write of the state object;
  the first call that fails is the last call made, and its error is what \<^verbatim>\<open>writer\<close>
  hands to its callback. So the state object is written only after the data object of
  the same sequence has been written, and when the write of the data object fails
  nothing is stored and the state object is not written. A sequence whose timestamp is
  not a valid date, a \<^verbatim>\<open>null\<close> sequence and a target that is neither \<^verbatim>\<open>s3:\<close> nor
  \<^verbatim>\<open>file:\<close> give an error and no call. When \<^verbatim>\<open>writer\<close> has handed over or raised an
  error, the run ends with that error, and between the error and the end of the run no
  call to the sink completes and nothing is stored, whatever the stream still holds:
  no retry and no write of a later batch. Without an error the run goes on with the
  rest of the stream.
\<close>

theorem state_written_after_data:
  assumes "writer e u (Some n, batch) w = (r, w')"
  shows "(sequenceToTimestamp n = Date None \<longrightarrow>
            r = Unhandled (RangeError ''Invalid time value'') \<and> w' = w)
       \<and> (sequenceToTimestamp n \<noteq> Date None \<and> protocol u = ''s3:'' \<longrightarrow>
           (\<exists>msg. r = Callback (Some (IOError msg))
              \<and> calls w' = calls w @ [(put_data e u n batch, False)]
              \<and> objects w' = objects w \<and> files w' = files w)
         \<or> (\<exists>msg. r = Callback (Some (IOError msg))
              \<and> calls w' = calls w @ [(put_data e u n batch, True), (put_state e u n, False)]
              \<and> objects w' =
                  (objects w)((host u, drop 1 (path u) @ sequencePath n @ ''.json.gz'')
                    \<mapsto> gzip e (body_of e batch)))
         \<or> (r = Callback None
              \<and> calls w' = calls w @ [(put_data e u n batch, True), (put_state e u n, True)]))
       \<and> (sequenceToTimestamp n \<noteq> Date None \<and> protocol u = ''file:'' \<longrightarrow>
           (\<exists>msg. r = Callback (Some (IOError msg))
              \<and> calls w' = calls w @ [(make_dirs e u n, False)]
              \<and> files w' = files w \<and> objects w' = objects w)
         \<or> (\<exists>msg. r = Callback (Some (IOError msg))
              \<and> calls w' = calls w @ [(make_dirs e u n, True), (write_data e u n batch, False)]
              \<and> files w' = files w \<and> objects w' = objects w)
         \<or> (\<exists>msg. r = Callback (Some (IOError msg))
              \<and> calls w' = calls w @ [(make_dirs e u n, True), (write_data e u n batch, True),
                                       (write_state e u n, False)])
         \<or> (r = Callback None
              \<and> calls w' = calls w @ [(make_dirs e u n, True), (write_data e u n batch, True),
                                       (write_state e u n, True)]))
       \<and> (sequenceToTimestamp n \<noteq> Date None
            \<and> protocol u \<noteq> ''s3:'' \<and> protocol u \<noteq> ''file:'' \<longrightarrow>
            r = Callback (Some (UnsupportedProtocol (protocol u))) \<and> w' = w)
       \<and> (r = Callback None \<longrightarrow>
            publish e u (Val (Some n, batch) # rest) w = publish e u rest w')
       \<and> (r = Callback (Some err) \<longrightarrow>
            (\<exists>w''. publish e u (Val (Some n, batch) # rest) w = (Some err, w'')
               \<and> files w'' = files w' \<and> objects w'' = objects w' \<and> calls w'' = calls w'))
       \<and> (r = Unhandled err \<longrightarrow>
            publish e u (Val (Some n, batch) # rest) w = (Some err, w'))
       \<and> (\<exists>err'. writer e u (None, batch) w = (Unhandled err', w)
              \<and> publish e u (Val (None, batch) # rest) w = (Some err', w))"
proof -
  have valid: "\<exists>ms. sequenceToTimestamp n = Date (Some ms)"
    if "sequenceToTimestamp n \<noteq> Date None"
  proof (cases "sequenceToTimestamp n")
    case (Date t)
    with that show ?thesis by (cases t) simp_all
  qed
  show ?thesis
  proof (intro conjI impI)
    assume "sequenceToTimestamp n = Date None"
    from writer_invalid [OF this, of e u batch w] assms
    show "r = Unhandled (RangeError ''Invalid time value'')" and "w' = w" by simp_all
  next
    assume a: "sequenceToTimestamp n \<noteq> Date None \<and> protocol u = ''s3:''"
    then obtain ms where "sequenceToTimestamp n = Date (Some ms)" using valid by blast
    from writer_s3 [OF assms this] a
    show "(\<exists>msg. r = Callback (Some (IOError msg))
              \<and> calls w' = calls w @ [(put_data e u n batch, False)]
              \<and> objects w' = objects w \<and> files w' = files w)
         \<or> (\<exists>msg. r = Callback (Some (IOError msg))
              \<and> calls w' = calls w @ [(put_data e u n batch, True), (put_state e u n, False)]
              \<and> objects w' =
                  (objects w)((host u, drop 1 (path u) @ sequencePath n @ ''.json.gz'')
                    \<mapsto> gzip e (body_of e batch)))
         \<or> (r = Callback None
              \<and> calls w' = calls w @ [(put_data e u n batch, True), (put_state e u n, True)])"
      by blast
  next
    assume a: "sequenceToTimestamp n \<noteq> Date None \<and> protocol u = ''file:''"
    then obtain ms where "sequenceToTimestamp n = Date (Some ms)" using valid by blast
    from writer_file [OF assms this] a
    show "(\<exists>msg. r = Callback (Some (IOError msg))
              \<and> calls w' = calls w @ [(make_dirs e u n, False)]
              \<and> files w' = files w \<and> objects w' = objects w)
         \<or> (\<exists>msg. r = Callback (Some (IOError msg))
              \<and> calls w' = calls w @ [(make_dirs e u n, True), (write_data e u n batch, False)]
              \<and> files w' = files w \<and> objects w' = objects w)
         \<or> (\<exists>msg. r = Callback (Some (IOError msg))
              \<and> calls w' = calls w @ [(make_dirs e u n, True), (write_data e u n batch, True),
                                       (write_state e u n, False)])
         \<or> (r = Callback None
              \<and> calls w' = calls w @ [(make_dirs e u n, True), (write_data e u n batch, True),
                                       (write_state e u n, True)])"
      by blast
  next
    assume a: "sequenceToTimestamp n \<noteq> Date None
            \<and> protocol u \<noteq> ''s3:'' \<and> protocol u \<noteq> ''file:''"
    then obtain ms where "sequenceToTimestamp n = Date (Some ms)" using valid by blast
    from writer_other [OF assms this] a
    show "r = Callback (Some (UnsupportedProtocol (protocol u)))" and "w' = w" by simp_all
  next
    assume "r = Callback None"
    with assms show "publish e u (Val (Some n, batch) # rest) w = publish e u rest w'"
      by (simp add: publish_def)
  next
    assume "r = Callback (Some err)"
    with assms have "writer e u (Some n, batch) w = (Callback (Some err), w')" by simp
    then show "\<exists>w''. publish e u (Val (Some n, batch) # rest) w = (Some err, w'')
               \<and> files w'' = files w' \<and> objects w'' = objects w' \<and> calls w'' = calls w'"
      by (rule publish_after_error)
  next
    assume "r = Unhandled err"
    with assms show "publish e u (Val (Some n, batch) # rest) w = (Some err, w')"
      by (simp add: publish_def)
  next
    show "\<exists>err'. writer e u (None, batch) w = (Unhandled err', w)
              \<and> publish e u (Val (None, batch) # rest) w = (Some err', w)"
      by (simp add: writer_null publish_def)
  qed
qed

lemma sequencePath_42: "sequencePath 42 = ''000/000/042''"
  by code_simp

lemma sequencePath_43: "sequencePath 43 = ''000/000/043''"
  by code_simp

theorem state_written_after_data_witness:
  "writer example_env \<lparr>protocol = ''s3:'', host = ''bucket'', path = ''/augdiffs/''\<rparr>
       (Some 42, []) (example_world\<lparr>faults := [Some ''timeout'']\<rparr>)
     = (Callback (Some (IOError ''timeout'')),
        example_world\<lparr>calls := [(PutObject ''bucket'' ''augdiffs/000/000/042.json.gz'' ''gz:''
                                   ''application/json'', False)],
                      faults := []\<rparr>)
   \<and> (\<exists>w''. publish example_env
               \<lparr>protocol = ''s3:'', host = ''bucket'', path = ''/augdiffs/''\<rparr>
               [Val (Some 42, []), Val (Some 43, [])]
               (example_world\<lparr>faults := [Some ''timeout'']\<rparr>)
             = (Some (IOError ''timeout''), w'')
          \<and> files w'' = files example_world \<and> objects w'' = objects example_world
          \<and> calls w'' = [(PutObject ''bucket'' ''augdiffs/000/000/042.json.gz'' ''gz:''
                            ''application/json'', False)])
   \<and> publish example_env default_target [Val (Some 42, []), Val (Some 43, [])]
        (example_world\<lparr>faults := [None, Some ''disk full'']\<rparr>)
      = (Some (IOError ''disk full''),
         example_world\<lparr>calls := [(Mkdirs ''./000/000'', True),
                                   (WriteFile ''./000/000/042.json.gz'' ''gz:'', False)],
                       faults := [],
                       started := [Mkdirs ''./000/000'']\<rparr>)"
proof -
  let ?u = "\<lparr>protocol = ''s3:'', host = ''bucket'', path = ''/augdiffs/''\<rparr>"
  let ?w = "example_world\<lparr>faults := [Some ''timeout'']\<rparr>"
  let ?w' = "example_world\<lparr>calls := [(PutObject ''bucket'' ''augdiffs/000/000/042.json.gz''
                 ''gz:'' ''application/json'', False)], faults := []\<rparr>"
  have h: "writer example_env ?u (Some 42, []) ?w = (Callback (Some (IOError ''timeout'')), ?w')"
    by (simp add: writer_def perform_def Let_def sequencePath_42 sequenceToTimestamp_valid
        example_env_def example_world_def)
  have "\<exists>w''. publish example_env ?u (Val (Some 42, []) # [Val (Some 43, [])]) ?w
             = (Some (IOError ''timeout''), w'')
          \<and> files w'' = files ?w' \<and> objects w'' = objects ?w' \<and> calls w'' = calls ?w'"
    by (rule state_written_after_data
        [OF h, THEN conjunct2, THEN conjunct2, THEN conjunct2, THEN conjunct2, THEN conjunct2,
         THEN conjunct1, THEN mp, OF refl])
  then have p: "\<exists>w''. publish example_env ?u [Val (Some 42, []), Val (Some 43, [])] ?w
             = (Some (IOError ''timeout''), w'')
          \<and> files w'' = files example_world \<and> objects w'' = objects example_world
          \<and> calls w'' = [(PutObject ''bucket'' ''augdiffs/000/000/042.json.gz'' ''gz:''
                            ''application/json'', False)]"
    by (simp add: example_world_def)
  have f: "publish example_env default_target [Val (Some 42, []), Val (Some 43, [])]
        (example_world\<lparr>faults := [None, Some ''disk full'']\<rparr>)
      = (Some (IOError ''disk full''),
         example_world\<lparr>calls := [(Mkdirs ''./000/000'', True),
                                   (WriteFile ''./000/000/042.json.gz'' ''gz:'', False)],
                       faults := [],
                       started := [Mkdirs ''./000/000'']\<rparr>)"
    by (simp add: publish_def writer_def writer_enter_def perform_def Let_def sequencePath_42
        sequencePath_43 sequenceToTimestamp_valid example_env_def example_world_def
        default_target_def)
  from h p f show ?thesis by (intro conjI)
qed

end
